theory Spec2Isabelle
  imports Complex_Main "HOL-Library.AList" "HOL-Library.Char_ord" "HOL-Library.List_Lexorder"
    "HOL-Library.Multiset"
begin

section \<open>Data model of graph.py\<close>

text \<open>
  A \<open>Vertex\<close> is a dataclass with one field \<open>name\<close>; equality is the dataclass equality
  (by name) and the hash is the hash of the name, so a vertex is its name as a dictionary
  key. Strings are byte lists; their order (used by \<open>UndirectedEdge.__post_init__\<close>) is
  the lexicographic order of \<open>List_Lexorder\<close> over \<open>Char_ord\<close>, which is Python's order
  on \<open>str\<close> for UTF-8 encoded text.
\<close>

datatype vertex = Vertex (name: string)

text \<open>
  \<open>DirectedEdge\<close> and \<open>UndirectedEdge\<close> are two dataclasses with the same three fields.
  The weight is a Python \<open>float\<close>; the model is polymorphic in the weight type \<open>'w\<close> and
  uses only \<open>0\<close>, \<open>+\<close> and \<open><\<close> of it, the three operations the source applies to
  weights. Concrete graphs are evaluated at \<open>rat\<close>: the weights of the test graphs
  (0.5 and 2.0) and all their sums are dyadic and exact in binary floating point.
\<close>

datatype 'w edge =
    DirectedEdge (vertex1: vertex) (vertex2: vertex) (weight: 'w)
  | UndirectedEdge (vertex1: vertex) (vertex2: vertex) (weight: 'w)

datatype error =
    NotImplementedError string
  | KeyError vertex
  | IndexError
  | RuntimeError string

type_synonym path = "vertex list"

text \<open>\<open>TypingVisited\<close>: a \<open>defaultdict(tuple)\<close>, kept as an association list in insertion order.\<close>

type_synonym visited = "(vertex \<times> path) list"

text \<open>
  \<open>Graph\<close>: the name, the \<open>directed\<close> flag (\<open>Optional[bool]\<close>), the adjacency
  \<open>defaultdict(dict)\<close> as an association list of association lists in insertion order, and
  the memo table that \<open>@functools.cache\<close> keeps for \<open>total_vertex_sequence_weight\<close>
  (keyed by the graph instance and the vertex sequence, so one table per graph).
\<close>

record 'w Graph =
  graph_name :: string
  directed :: "bool option"
  adjacency_list :: "(vertex \<times> (vertex \<times> 'w edge) list) list"
  cache :: "(path \<times> 'w) list"

text \<open>Python truthiness of an \<open>Optional[bool]\<close>: \<open>None\<close> and \<open>False\<close> are falsy.\<close>

fun truthy :: "bool option \<Rightarrow> bool" where
  "truthy None = False"
| "truthy (Some b) = b"

text \<open>\<open>UndirectedEdge.__post_init__\<close>: swap the endpoints when \<open>vertex2.name < vertex1.name\<close>.\<close>

definition UndirectedEdge_init :: "vertex \<Rightarrow> vertex \<Rightarrow> 'w \<Rightarrow> 'w edge" where
  "UndirectedEdge_init v1 v2 w =
     (if name v2 < name v1 then UndirectedEdge v2 v1 w else UndirectedEdge v1 v2 w)"

definition edge_factory :: "string \<Rightarrow> string \<Rightarrow> 'w \<Rightarrow> bool option \<Rightarrow> error + 'w edge" where
  "edge_factory vertex_name1 vertex_name2 w dir =
     (if vertex_name1 = vertex_name2
      then Inl (NotImplementedError ''Edge such that vertex1 == vertex2 are not relevant'')
      else if truthy dir
        then Inr (DirectedEdge (Vertex vertex_name1) (Vertex vertex_name2) w)
        else Inr (UndirectedEdge_init (Vertex vertex_name1) (Vertex vertex_name2) w))"

definition Graph_init :: "string \<Rightarrow> bool option \<Rightarrow> 'w Graph" where
  "Graph_init n dir = \<lparr>graph_name = n, directed = dir, adjacency_list = [], cache = []\<rparr>"

text \<open>
  Reading a \<open>defaultdict\<close> at a missing key stores the default under that key (at the end
  of the insertion order) and returns it; at a present key the dictionary is unchanged.
\<close>

definition dd_get :: "'v \<Rightarrow> ('k \<times> 'v) list \<Rightarrow> 'k \<Rightarrow> 'v \<times> ('k \<times> 'v) list" where
  "dd_get dflt d k = (case map_of d k of Some v \<Rightarrow> (v, d) | None \<Rightarrow> (dflt, d @ [(k, dflt)]))"

text \<open>\<open>self.adjacency_list[v]\<close>: the inner dictionary and the graph after the read.\<close>

definition adj_get :: "'w Graph \<Rightarrow> vertex \<Rightarrow> (vertex \<times> 'w edge) list \<times> 'w Graph" where
  "adj_get g v =
     (let (d, al) = dd_get [] (adjacency_list g) v in (d, g\<lparr>adjacency_list := al\<rparr>))"

text \<open>
  \<open>add_edge\<close>: the edge comes from \<open>edge_factory\<close> with its default \<open>directed=True\<close>; the
  store \<open>self.adjacency_list[edge.vertex1][edge.vertex2] = edge\<close> reads the outer
  \<open>defaultdict\<close> and assigns in the inner dictionary (in place for a present key, at the end
  for a new one, which is \<open>AList.update\<close>).
\<close>

definition add_edge :: "'w Graph \<Rightarrow> string \<Rightarrow> string \<Rightarrow> 'w \<Rightarrow> error + 'w Graph" where
  "add_edge g v1 v2 w =
     (case edge_factory v1 v2 w (Some True) of
        Inl e \<Rightarrow> Inl e
      | Inr e \<Rightarrow>
          (let (d, g1) = adj_get g (vertex1 e)
           in Inr (g1\<lparr>adjacency_list :=
                 AList.update (vertex1 e) (AList.update (vertex2 e) e d) (adjacency_list g1)\<rparr>)))"

text \<open>A sequence of \<open>add_edge\<close> calls, as the test module builds its graphs; the first
  failing call ends it.\<close>

fun add_edges :: "'w Graph \<Rightarrow> (string \<times> string \<times> 'w) list \<Rightarrow> error + 'w Graph" where
  "add_edges g [] = Inr g"
| "add_edges g ((v1, v2, w) # es) =
     (case add_edge g v1 v2 w of Inl e \<Rightarrow> Inl e | Inr g' \<Rightarrow> add_edges g' es)"

section \<open>Path weights\<close>

text \<open>
  The loop of \<open>total_vertex_sequence_weight\<close>: for each next vertex, read
  \<open>self.adjacency_list[vertex1]\<close> (a \<open>defaultdict\<close> read, which may insert), look
  \<open>vertex2\<close> up in the inner plain dictionary (\<open>KeyError\<close> when absent) and add the
  weight. The graph is returned in both outcomes: an inserted key survives the exception.
\<close>

fun weight_loop :: "'w::{zero,plus} Graph \<Rightarrow> vertex \<Rightarrow> path \<Rightarrow> 'w \<Rightarrow> (error + 'w) \<times> 'w Graph" where
  "weight_loop g v1 [] w = (Inr w, g)"
| "weight_loop g v1 (v2 # vs) w =
     (let (d, g1) = adj_get g v1
      in case map_of d v2 of
           None \<Rightarrow> (Inl (KeyError v2), g1)
         | Some e \<Rightarrow> weight_loop g1 v2 vs (w + weight e))"

text \<open>
  \<open>total_vertex_sequence_weight\<close> under \<open>@functools.cache\<close>: a memoised sequence returns
  the stored weight without running the body; otherwise the body runs (\<open>vertex_sequence[0]\<close>
  raises \<open>IndexError\<close> on the empty tuple) and a returned weight is memoised. An exception
  is not memoised.
\<close>

definition total_vertex_sequence_weight ::
  "'w::{zero,plus} Graph \<Rightarrow> path \<Rightarrow> (error + 'w) \<times> 'w Graph" where
  "total_vertex_sequence_weight g vertex_sequence =
     (case map_of (cache g) vertex_sequence of
        Some w \<Rightarrow> (Inr w, g)
      | None \<Rightarrow>
          (case vertex_sequence of
             [] \<Rightarrow> (Inl IndexError, g)
           | v1 # vs \<Rightarrow>
               (case weight_loop g v1 vs 0 of
                  (Inl e, g1) \<Rightarrow> (Inl e, g1)
                | (Inr w, g1) \<Rightarrow> (Inr w, g1\<lparr>cache := cache g1 @ [(vertex_sequence, w)]\<rparr>))))"

definition min_vertex_sequence_weight ::
  "'w::{zero,plus,ord} Graph \<Rightarrow> path \<Rightarrow> path \<Rightarrow> (error + path) \<times> 'w Graph" where
  "min_vertex_sequence_weight g sequence1 sequence2 =
     (case total_vertex_sequence_weight g sequence1 of
        (Inl e, g1) \<Rightarrow> (Inl e, g1)
      | (Inr sequence1_weight, g1) \<Rightarrow>
          (case total_vertex_sequence_weight g1 sequence2 of
             (Inl e, g2) \<Rightarrow> (Inl e, g2)
           | (Inr sequence2_weight, g2) \<Rightarrow>
               (if sequence1_weight < sequence2_weight then (Inr sequence1, g2)
                else (Inr sequence2, g2))))"

section \<open>The visit rule\<close>

text \<open>
  \<open>visit_vertex_neighbors\<close>. Every \<open>visited[...]\<close> is a \<open>defaultdict\<close> read; the
  assignment \<open>visited[v] = ...\<close> is \<open>AList.update\<close>. The result holds the returned
  boolean and the visited map; on an exception the visited map is lost with the frame of
  the traversal, the graph is not.
\<close>

definition visit_vertex_neighbors ::
  "'w::{zero,plus,ord} Graph \<Rightarrow> vertex \<Rightarrow> vertex \<Rightarrow> visited \<Rightarrow> (error + bool \<times> visited) \<times> 'w Graph" where
  "visit_vertex_neighbors g v from_vertex vis =
     (let (p, vis1) = dd_get [] vis v
      in if p = []
         then (let (pf, vis2) = dd_get [] vis1 from_vertex
               in (Inr (True, AList.update v (pf @ [v]) vis2), g))
         else (let (pf, vis2) = dd_get [] vis1 from_vertex;
                   new_path = pf @ [v];
                   (pv, vis3) = dd_get [] vis2 v
               in case min_vertex_sequence_weight g pv new_path of
                    (Inl e, g1) \<Rightarrow> (Inl e, g1)
                  | (Inr m, g1) \<Rightarrow>
                      (let vis4 = AList.update v m vis3;
                           (pv', vis5) = dd_get [] vis4 v
                       in (Inr (pv' = new_path, vis5), g1))))"

section \<open>Neighbour enumeration\<close>

text \<open>
  \<open>neighbors\<close> is a generator: its body runs interleaved with the body of the \<open>for\<close>
  loop that consumes it. The model is the loop itself, \<open>for_neighbors body target\<close>, with
  the consumer's loop body as a parameter; the body threads an accumulator of its own and
  the graph, may raise, and may fail to return (\<open>None\<close>).

  First part: \<open>self.adjacency_list[target_vertex].items()\<close>. The outer read may insert the
  key; the inner dictionary is only ever changed by \<open>add_edge\<close>, which no consumer in the
  module calls, so its items are taken when the loop starts.
\<close>

type_synonym ('a, 'w) outcome = "((error + 'a) \<times> 'w Graph) option"

fun for_items ::
  "(vertex \<times> 'w edge \<Rightarrow> 'a \<Rightarrow> 'w Graph \<Rightarrow> ('a, 'w) outcome) \<Rightarrow>
   (vertex \<times> 'w edge) list \<Rightarrow> 'a \<Rightarrow> 'w Graph \<Rightarrow> ('a, 'w) outcome" where
  "for_items body [] acc g = Some (Inr acc, g)"
| "for_items body (x # xs) acc g =
     (case body x acc g of
        None \<Rightarrow> None
      | Some (Inl e, g') \<Rightarrow> Some (Inl e, g')
      | Some (Inr acc', g') \<Rightarrow> for_items body xs acc' g')"

text \<open>
  Second part, for a graph whose \<open>directed\<close> flag is falsy:
  \<open>for vertex1 in self.adjacency_list\<close>. The dictionary iterator remembers the size of the
  dictionary (\<open>n\<close>) and raises \<open>RuntimeError\<close> when asked for the next key after the size
  has changed; the size can only change while the consumer's body runs, so it is checked
  after each body. Keys are never removed, so the keys still to come are those of the start.
\<close>

fun for_reverse ::
  "(vertex \<times> 'w edge \<Rightarrow> 'a \<Rightarrow> 'w Graph \<Rightarrow> ('a, 'w) outcome) \<Rightarrow>
   vertex \<Rightarrow> nat \<Rightarrow> vertex list \<Rightarrow> 'a \<Rightarrow> 'w Graph \<Rightarrow> ('a, 'w) outcome" where
  "for_reverse body target_vertex n [] acc g = Some (Inr acc, g)"
| "for_reverse body target_vertex n (v1 # ks) acc g =
     (let (d, g1) = adj_get g v1
      in case map_of d target_vertex of
           None \<Rightarrow> for_reverse body target_vertex n ks acc g1
         | Some e \<Rightarrow>
             (case body (v1, e) acc g1 of
                None \<Rightarrow> None
              | Some (Inl err, g') \<Rightarrow> Some (Inl err, g')
              | Some (Inr acc', g') \<Rightarrow>
                  (if length (adjacency_list g') \<noteq> n
                   then Some (Inl (RuntimeError ''dictionary changed size during iteration''), g')
                   else for_reverse body target_vertex n ks acc' g')))"

definition for_neighbors ::
  "(vertex \<times> 'w edge \<Rightarrow> 'a \<Rightarrow> 'w Graph \<Rightarrow> ('a, 'w) outcome) \<Rightarrow>
   vertex \<Rightarrow> 'a \<Rightarrow> 'w Graph \<Rightarrow> ('a, 'w) outcome" where
  "for_neighbors body target_vertex acc g =
     (let (d, g1) = adj_get g target_vertex
      in case for_items body d acc g1 of
           None \<Rightarrow> None
         | Some (Inl e, g2) \<Rightarrow> Some (Inl e, g2)
         | Some (Inr acc2, g2) \<Rightarrow>
             (if \<not> truthy (directed g2)
              then for_reverse body target_vertex (length (adjacency_list g2))
                     (map fst (adjacency_list g2)) acc2 g2
              else Some (Inr acc2, g2)))"

text \<open>\<open>neighbors\<close> consumed to its end by a loop that only collects what is yielded.\<close>

definition neighbors :: "'w Graph \<Rightarrow> vertex \<Rightarrow> ((vertex \<times> 'w edge) list, 'w) outcome" where
  "neighbors g target_vertex =
     for_neighbors (\<lambda>x acc g'. Some (Inr (acc @ [x]), g')) target_vertex [] g"

section \<open>Traversals\<close>

text \<open>
  The work lists are \<open>deque\<close>s, kept as lists from left to right: \<open>append\<close> adds at the
  right end, \<open>appendleft\<close> at the left end, \<open>pop\<close> takes from the right end.
\<close>

definition push_unvisited_neighbors ::
  "'w::{zero,plus,ord} Graph \<Rightarrow> vertex \<Rightarrow> 'w edge list \<Rightarrow> visited \<Rightarrow>
   ('w edge list \<times> visited, 'w) outcome" where
  "push_unvisited_neighbors g v s vis =
     for_neighbors
       (\<lambda>(neighbor_vertex, e) (s', vis') g'.
          case visit_vertex_neighbors g' (vertex2 e) (vertex1 e) vis' of
            (Inl err, g'') \<Rightarrow> Some (Inl err, g'')
          | (Inr (b, vis''), g'') \<Rightarrow> Some (Inr (if b then s' @ [e] else s', vis''), g''))
       v (s, vis) g"

definition enqueue_unvisited_neighbors ::
  "'w::{zero,plus,ord} Graph \<Rightarrow> vertex \<Rightarrow> 'w edge list \<Rightarrow> visited \<Rightarrow>
   ('w edge list \<times> visited, 'w) outcome" where
  "enqueue_unvisited_neighbors g v q vis =
     for_neighbors
       (\<lambda>(neighbor_vertex, e) (q', vis') g'.
          case visit_vertex_neighbors g' (vertex2 e) (vertex1 e) vis' of
            (Inl err, g'') \<Rightarrow> Some (Inl err, g'')
          | (Inr (b, vis''), g'') \<Rightarrow> Some (Inr (if b then e # q' else q', vis''), g''))
       v (q, vis) g"

text \<open>
  The recursion of \<open>dfs\<close> and the \<open>while\<close> loops of \<open>dfs_non_recursive\<close> and \<open>bfs\<close> need
  not end, so each takes fuel: the recursion depth left for \<open>dfs\<close>, the iterations left
  for the loops. \<open>None\<close> is fuel exhausted. (Python's own recursion limit is a resource
  bound of the interpreter and is not modelled.)
\<close>

fun dfs :: "nat \<Rightarrow> vertex \<Rightarrow> visited \<Rightarrow> 'w::{zero,plus,ord} Graph \<Rightarrow> (visited, 'w) outcome" where
  "dfs 0 v vis g = None"
| "dfs (Suc n) v vis g =
     for_neighbors
       (\<lambda>(neighbor_vertex, e) vis' g'.
          case visit_vertex_neighbors g' (vertex2 e) (vertex1 e) vis' of
            (Inl err, g'') \<Rightarrow> Some (Inl err, g'')
          | (Inr (b, vis''), g'') \<Rightarrow>
              (if b then dfs n neighbor_vertex vis'' g'' else Some (Inr vis'', g'')))
       v vis g"

fun dfs_while :: "nat \<Rightarrow> 'w edge list \<Rightarrow> visited \<Rightarrow> 'w::{zero,plus,ord} Graph \<Rightarrow> (visited, 'w) outcome" where
  "dfs_while 0 s vis g = (if s = [] then Some (Inr vis, g) else None)"
| "dfs_while (Suc n) s vis g =
     (if s = [] then Some (Inr vis, g)
      else (case push_unvisited_neighbors g (vertex2 (last s)) (butlast s) vis of
              None \<Rightarrow> None
            | Some (Inl err, g') \<Rightarrow> Some (Inl err, g')
            | Some (Inr (s', vis'), g') \<Rightarrow> dfs_while n s' vis' g'))"

definition dfs_non_recursive ::
  "nat \<Rightarrow> vertex \<Rightarrow> visited \<Rightarrow> 'w::{zero,plus,ord} Graph \<Rightarrow> (visited, 'w) outcome" where
  "dfs_non_recursive n v vis g =
     (case push_unvisited_neighbors g v [] vis of
        None \<Rightarrow> None
      | Some (Inl err, g') \<Rightarrow> Some (Inl err, g')
      | Some (Inr (s, vis'), g') \<Rightarrow> dfs_while n s vis' g')"

definition dfs_traversal ::
  "nat \<Rightarrow> 'w::{zero,plus,ord} Graph \<Rightarrow> vertex \<Rightarrow> bool \<Rightarrow> (visited, 'w) outcome" where
  "dfs_traversal n g starting_vertex recursive =
     (case visit_vertex_neighbors g starting_vertex starting_vertex [] of
        (Inl err, g') \<Rightarrow> Some (Inl err, g')
      | (Inr (b, vis), g') \<Rightarrow>
          (if recursive then dfs n starting_vertex vis g'
           else dfs_non_recursive n starting_vertex vis g'))"

fun bfs_while :: "nat \<Rightarrow> 'w edge list \<Rightarrow> visited \<Rightarrow> 'w::{zero,plus,ord} Graph \<Rightarrow> (visited, 'w) outcome" where
  "bfs_while 0 q vis g = (if q = [] then Some (Inr vis, g) else None)"
| "bfs_while (Suc n) q vis g =
     (if q = [] then Some (Inr vis, g)
      else (case enqueue_unvisited_neighbors g (vertex2 (last q)) (butlast q) vis of
              None \<Rightarrow> None
            | Some (Inl err, g') \<Rightarrow> Some (Inl err, g')
            | Some (Inr (q', vis'), g') \<Rightarrow> bfs_while n q' vis' g'))"

definition bfs :: "nat \<Rightarrow> vertex \<Rightarrow> visited \<Rightarrow> 'w::{zero,plus,ord} Graph \<Rightarrow> (visited, 'w) outcome" where
  "bfs n v vis g =
     (case enqueue_unvisited_neighbors g v [] vis of
        None \<Rightarrow> None
      | Some (Inl err, g') \<Rightarrow> Some (Inl err, g')
      | Some (Inr (q, vis'), g') \<Rightarrow> bfs_while n q vis' g')"

definition bfs_traversal :: "nat \<Rightarrow> 'w::{zero,plus,ord} Graph \<Rightarrow> vertex \<Rightarrow> (visited, 'w) outcome" where
  "bfs_traversal n g starting_vertex =
     (case visit_vertex_neighbors g starting_vertex starting_vertex [] of
        (Inl err, g') \<Rightarrow> Some (Inl err, g')
      | (Inr (b, vis), g') \<Rightarrow> bfs n starting_vertex vis g')"

section \<open>The shortest-path query\<close>

text \<open>
  \<open>shortest_path\<close> returns either the path \<open>visited[vertex2]\<close> or, for an unknown
  \<open>search\<close>, a \<open>NotImplementedError\<close> object: the exception is returned, not raised.
\<close>

datatype returned = ReturnedPath path | ReturnedError error

definition shortest_path ::
  "nat \<Rightarrow> 'w::{zero,plus,ord} Graph \<Rightarrow> string \<Rightarrow> string \<Rightarrow> string \<Rightarrow> (returned, 'w) outcome" where
  "shortest_path n g vtx_name1 vtx_name2 search =
     (let v1 = Vertex vtx_name1; v2 = Vertex vtx_name2;
          finish = (\<lambda>r. case r of
                      None \<Rightarrow> None
                    | Some (Inl err, g') \<Rightarrow> Some (Inl err, g')
                    | Some (Inr vis, g') \<Rightarrow> Some (Inr (ReturnedPath (fst (dd_get [] vis v2))), g'))
      in if search = ''dfs-nonrecursive'' then finish (dfs_traversal n g v1 False)
         else if search = ''dfs-recursive'' then finish (dfs_traversal n g v1 True)
         else if search = ''bfs'' then finish (bfs_traversal n g v1)
         else Some (Inr (ReturnedError (NotImplementedError ''Unsupported search'')), g))"

section \<open>Notions used to state the properties\<close>

text \<open>
  The edge stored for an ordered pair of vertices, with no side effect: a plain lookup in
  the adjacency mapping under \<open>v1\<close>, keyed by \<open>v2\<close>.
\<close>

definition stored_edge :: "'w Graph \<Rightarrow> vertex \<Rightarrow> vertex \<Rightarrow> 'w edge option" where
  "stored_edge g v1 v2 =
     (case map_of (adjacency_list g) v1 of None \<Rightarrow> None | Some d \<Rightarrow> map_of d v2)"

text \<open>The consecutive pairs \<open>(v\<^sub>i, v\<^sub>i\<^sub>+\<^sub>1)\<close> of a sequence, in order.\<close>

fun consecutive_pairs :: "'a list \<Rightarrow> ('a \<times> 'a) list" where
  "consecutive_pairs (x # y # zs) = (x, y) # consecutive_pairs (y # zs)"
| "consecutive_pairs zs = []"

text \<open>The weights stored for a list of pairs; \<open>None\<close> when some pair has no stored edge.\<close>

fun stored_weights :: "'w Graph \<Rightarrow> (vertex \<times> vertex) list \<Rightarrow> 'w list option" where
  "stored_weights g [] = Some []"
| "stored_weights g ((v1, v2) # ps) =
     (case stored_edge g v1 v2 of
        None \<Rightarrow> None
      | Some e \<Rightarrow> map_option ((#) (weight e)) (stored_weights g ps))"

subsection \<open>The graphs of the test module\<close>

text \<open>
  \<open>complete_diamond\<close> as \<open>test_graph.py\<close> builds it: a \<open>Graph\<close> with the default
  \<open>directed=True\<close> and six \<open>add_edge\<close> calls. The record below is the result of those
  calls (lemma \<open>complete_diamond_built\<close>).
\<close>

definition complete_diamond :: "rat Graph" where
  "complete_diamond =
     \<lparr>graph_name = ''complete-diamond'', directed = Some True,
      adjacency_list =
        [(Vertex ''a'',
          [(Vertex ''b'', DirectedEdge (Vertex ''a'') (Vertex ''b'') (1 / 2)),
           (Vertex ''c'', DirectedEdge (Vertex ''a'') (Vertex ''c'') 2),
           (Vertex ''d'', DirectedEdge (Vertex ''a'') (Vertex ''d'') 2)]),
         (Vertex ''b'',
          [(Vertex ''d'', DirectedEdge (Vertex ''b'') (Vertex ''d'') 2),
           (Vertex ''c'', DirectedEdge (Vertex ''b'') (Vertex ''c'') (1 / 2))]),
         (Vertex ''c'',
          [(Vertex ''d'', DirectedEdge (Vertex ''c'') (Vertex ''d'') (1 / 2))])],
      cache = []\<rparr>"

text \<open>The visited map all three traversals of \<open>complete_diamond\<close> from \<open>a\<close> end with.\<close>

definition diamond_visited :: visited where
  "diamond_visited =
     [(Vertex ''a'', [Vertex ''a'']),
      (Vertex ''b'', [Vertex ''a'', Vertex ''b'']),
      (Vertex ''c'', [Vertex ''a'', Vertex ''b'', Vertex ''c'']),
      (Vertex ''d'', [Vertex ''a'', Vertex ''b'', Vertex ''c'', Vertex ''d''])]"

text \<open>
  Equality of two Python dictionaries: the same keys with the same values, whatever the
  insertion order. Keys of an association list that models a dictionary are distinct.
\<close>

definition dict_eq :: "('k \<times> 'v) list \<Rightarrow> ('k \<times> 'v) list \<Rightarrow> bool" where
  "dict_eq d1 d2 \<longleftrightarrow>
     length d1 = length d2 \<and> list_all (\<lambda>(k, v). map_of d2 k = Some v) d1"

text \<open>The visited map of a traversal that returned one.\<close>

fun returned_visited :: "(visited, 'w) outcome \<Rightarrow> visited option" where
  "returned_visited (Some (Inr vis, g)) = Some vis"
| "returned_visited r = None"

subsection \<open>Frame of the queries\<close>

text \<open>
  \<open>extends g g'\<close>: \<open>g'\<close> is \<open>g\<close> with empty adjacency entries appended (the trace a
  \<open>defaultdict\<close> read leaves) and any memo table; name and \<open>directed\<close> flag are the same.
  \<open>all_directed g\<close>: every stored edge is a \<open>DirectedEdge\<close> from the key it is stored
  under to the key it is stored by.
\<close>

definition extends :: "'w Graph \<Rightarrow> 'w Graph \<Rightarrow> bool" where
  "extends g g' \<longleftrightarrow>
     graph_name g' = graph_name g \<and> directed g' = directed g \<and>
     (\<exists>vs. adjacency_list g' = adjacency_list g @ map (\<lambda>v. (v, [])) vs)"

definition all_directed :: "'w Graph \<Rightarrow> bool" where
  "all_directed g \<longleftrightarrow>
     list_all (\<lambda>(k, d). list_all (\<lambda>(k2, e). e = DirectedEdge k k2 (weight e)) d)
       (adjacency_list g)"


subsection \<open>The triangle\<close>

text \<open>
  The triangle of the test module, \<open>add_edge\<close> calls \<open>a\<rightarrow>b\<close>, \<open>a\<rightarrow>c\<close>, \<open>b\<rightarrow>c\<close> of
  weight 0.5: \<open>triangle\<close> with the default \<open>directed=True\<close> (as the test builds it) and
  \<open>triangle_undirected\<close> with \<open>directed=False\<close>. \<open>triangle_looping\<close> is the undirected
  triangle once a traversal has read the adjacency entry of \<open>c\<close> and memoised the three
  paths it compares.
\<close>

definition triangle_undirected :: "rat Graph" where
  "triangle_undirected =
     \<lparr>graph_name = ''triangle'', directed = Some False,
      adjacency_list =
        [(Vertex ''a'',
          [(Vertex ''b'', DirectedEdge (Vertex ''a'') (Vertex ''b'') (1 / 2)),
           (Vertex ''c'', DirectedEdge (Vertex ''a'') (Vertex ''c'') (1 / 2))]),
         (Vertex ''b'',
          [(Vertex ''c'', DirectedEdge (Vertex ''b'') (Vertex ''c'') (1 / 2))])],
      cache = []\<rparr>"

definition triangle_looping :: "rat Graph" where
  "triangle_looping =
     \<lparr>graph_name = ''triangle'', directed = Some False,
      adjacency_list =
        [(Vertex ''a'',
          [(Vertex ''b'', DirectedEdge (Vertex ''a'') (Vertex ''b'') (1 / 2)),
           (Vertex ''c'', DirectedEdge (Vertex ''a'') (Vertex ''c'') (1 / 2))]),
         (Vertex ''b'',
          [(Vertex ''c'', DirectedEdge (Vertex ''b'') (Vertex ''c'') (1 / 2))]),
         (Vertex ''c'', [])],
      cache =
        [([Vertex ''a'', Vertex ''b'', Vertex ''c''], 1),
         ([Vertex ''a'', Vertex ''c''], 1 / 2),
         ([Vertex ''a'', Vertex ''b''], 1 / 2)]\<rparr>"

definition triangle :: "rat Graph" where
  "triangle = triangle_undirected\<lparr>directed := Some True\<rparr>"

definition triangle_visited :: visited where
  "triangle_visited =
     [(Vertex ''a'', [Vertex ''a'']),
      (Vertex ''b'', [Vertex ''a'', Vertex ''b'']),
      (Vertex ''c'', [Vertex ''a'', Vertex ''c''])]"


subsection \<open>Notions for termination\<close>

text \<open>
  The weight of a vertex sequence read off the stored edges with no side effect
  (\<open>walk_weight\<close>), a memo table that agrees with it (\<open>cache_ok\<close>), and the recorded
  path of a vertex in a visited map, empty when there is none (\<open>path_of\<close>).
  \<open>negative_cycle\<close> is the directed graph built by \<open>add_edge('a', 'b', 1)\<close> and
  \<open>add_edge('b', 'a', -2)\<close>.

  For the termination proof: \<open>vis_ok\<close> (every recorded path ends in its vertex and has
  a weight), \<open>pw\<close> (the weight of the recorded path), \<open>positive_edges\<close> (every edge is
  stored under its first endpoint, keyed by its second, with a positive weight),
  \<open>ginv\<close> (the graph is the initial one up to empty adjacency entries and a sound memo
  table), \<open>scaled\<close> (a common denominator of the stored weights) and the three measures
  that decrease lexicographically: the number of unvisited vertices, the sum of the
  scaled weights of the recorded paths, and for the vertex being explored the number of
  vertices whose recorded path is heavier.
\<close>

definition walk_weight :: "'w::{zero,plus} Graph \<Rightarrow> path \<Rightarrow> 'w option" where
  "walk_weight g p = map_option (foldl (+) 0) (stored_weights g (consecutive_pairs p))"


definition path_of :: "visited \<Rightarrow> vertex \<Rightarrow> path" where
  "path_of vis v = (case map_of vis v of None \<Rightarrow> [] | Some p \<Rightarrow> p)"



definition pw :: "'w::{zero,plus} Graph \<Rightarrow> visited \<Rightarrow> vertex \<Rightarrow> 'w" where
  "pw g vis x = (case walk_weight g (path_of vis x) of None \<Rightarrow> 0 | Some w \<Rightarrow> w)"








definition improves :: "rat Graph \<Rightarrow> visited \<Rightarrow> visited \<Rightarrow> bool" where
  "improves g vis vis' \<longleftrightarrow>
     (\<forall>x. path_of vis x \<noteq> [] \<longrightarrow> path_of vis' x \<noteq> [] \<and> pw g vis' x \<le> pw g vis x)"





section \<open>Properties\<close>

subsection \<open>Reads of the adjacency mapping\<close>

lemma adj_get_present:
  "map_of (adjacency_list g) v = Some d \<Longrightarrow> adj_get g v = (d, g)"
  by (simp add: adj_get_def dd_get_def)

lemma adj_get_absent:
  "map_of (adjacency_list g) v = None \<Longrightarrow>
   adj_get g v = ([], g\<lparr>adjacency_list := adjacency_list g @ [(v, [])]\<rparr>)"
  by (simp add: adj_get_def dd_get_def)

subsection \<open>Path weights\<close>

lemma weight_loop_stored:
  "stored_weights g (consecutive_pairs (v1 # vs)) = Some ws \<Longrightarrow>
   weight_loop g v1 vs w = (Inr (foldl (+) w ws), g)"
proof (induction vs arbitrary: v1 w ws)
  case Nil
  then show ?case by simp
next
  case (Cons v2 vs)
  from Cons.prems obtain e ws' where e: "stored_edge g v1 v2 = Some e"
    and ws': "stored_weights g (consecutive_pairs (v2 # vs)) = Some ws'"
    and ws: "ws = weight e # ws'"
    by (auto split: option.splits)
  from e obtain d where d: "map_of (adjacency_list g) v1 = Some d" "map_of d v2 = Some e"
    by (auto simp: stored_edge_def split: option.splits)
  show ?case
    using Cons.IH [OF ws', of "w + weight e"] d ws
    by (simp add: adj_get_present)
qed

lemma weight_loop_missing:
  "stored_weights g (consecutive_pairs (v1 # vs)) = None \<Longrightarrow>
   \<exists>v g'. weight_loop g v1 vs w = (Inl (KeyError v), g')"
proof (induction vs arbitrary: v1 w)
  case Nil
  then show ?case by simp
next
  case (Cons v2 vs)
  show ?case
  proof (cases "stored_edge g v1 v2")
    case None
    then show ?thesis
      by (cases "map_of (adjacency_list g) v1")
        (auto simp: stored_edge_def adj_get_present adj_get_absent)
  next
    case (Some e)
    then obtain d where d: "map_of (adjacency_list g) v1 = Some d" "map_of d v2 = Some e"
      by (auto simp: stored_edge_def split: option.splits)
    from Cons.prems Some have "stored_weights g (consecutive_pairs (v2 # vs)) = None"
      by simp
    from Cons.IH [OF this, of "w + weight e"] d show ?thesis
      by (simp add: adj_get_present)
  qed
qed

subsection \<open>The queries only append empty adjacency entries\<close>

lemma extends_refl [simp]: "extends g g"
  by (auto simp: extends_def intro: exI [of _ "[]"])


lemma extends_cache [simp]: "extends g (g'\<lparr>cache := c\<rparr>) = extends g g'"
  by (simp add: extends_def)

lemma extends_adj_get: "adj_get g v = (d, g') \<Longrightarrow> extends g g'"
  by (cases "map_of (adjacency_list g) v")
    (auto simp: adj_get_def dd_get_def extends_def intro: exI [of _ "[v]"])








subsection \<open>What \<open>add_edge\<close> stores and what \<open>neighbors\<close> yields\<close>

lemma set_update_subset: "set (AList.update k v al) \<subseteq> insert (k, v) (set al)"
  by (induction al) auto

lemma add_edge_result:
  "n1 \<noteq> n2 \<Longrightarrow>
   add_edge g n1 n2 w =
     Inr ((snd (adj_get g (Vertex n1)))\<lparr>adjacency_list :=
        AList.update (Vertex n1)
          (AList.update (Vertex n2) (DirectedEdge (Vertex n1) (Vertex n2) w)
             (fst (adj_get g (Vertex n1))))
          (adjacency_list (snd (adj_get g (Vertex n1))))\<rparr>)"
  by (simp add: add_edge_def edge_factory_def split: prod.splits)

lemma add_edge_stored:
  assumes "n1 \<noteq> n2" and "add_edge g n1 n2 w = Inr g'"
  shows "stored_edge g' (Vertex n1) (Vertex n2) = Some (DirectedEdge (Vertex n1) (Vertex n2) w)"
    and "directed g' = directed g"
  using assms
  by (auto simp: add_edge_result stored_edge_def update_conv' adj_get_def dd_get_def
      split: option.splits)

lemma all_directed_iff:
  "all_directed g \<longleftrightarrow>
     (\<forall>k d k2 e. (k, d) \<in> set (adjacency_list g) \<longrightarrow> (k2, e) \<in> set d \<longrightarrow>
        e = DirectedEdge k k2 (weight e))"
  by (fastforce simp: all_directed_def list_all_iff)

lemma add_edge_entries:
  assumes ne: "n1 \<noteq> n2" and ad: "add_edge g n1 n2 w = Inr g'"
    and 1: "(k, dd) \<in> set (adjacency_list g')" and 2: "(k2, e) \<in> set dd"
  shows "k = Vertex n1 \<and> k2 = Vertex n2 \<and> e = DirectedEdge (Vertex n1) (Vertex n2) w \<or>
         (\<exists>d. (k, d) \<in> set (adjacency_list g) \<and> (k2, e) \<in> set d)"
proof -
  let ?v1 = "Vertex n1" and ?v2 = "Vertex n2"
  let ?e = "DirectedEdge ?v1 ?v2 w"
  obtain d g1 where a: "adj_get g ?v1 = (d, g1)" by (cases "adj_get g ?v1")
  have al1: "set (adjacency_list g1) \<subseteq> insert (?v1, []) (set (adjacency_list g))"
    and d: "d = [] \<or> (?v1, d) \<in> set (adjacency_list g)"
    using a by (auto simp: adj_get_def dd_get_def split: option.splits dest: map_of_SomeD)
  from ne ad a have g': "adjacency_list g' =
      AList.update ?v1 (AList.update ?v2 ?e d) (adjacency_list g1)"
    by (auto simp: add_edge_result)
  from 1 g' set_update_subset [of ?v1 "AList.update ?v2 ?e d" "adjacency_list g1"]
  have "(k, dd) = (?v1, AList.update ?v2 ?e d) \<or> (k, dd) \<in> set (adjacency_list g1)"
    by auto
  then show ?thesis
  proof
    assume eq: "(k, dd) = (?v1, AList.update ?v2 ?e d)"
    with 2 set_update_subset [of ?v2 ?e d] have "(k2, e) = (?v2, ?e) \<or> (k2, e) \<in> set d"
      by auto
    then show ?thesis
    proof
      assume "(k2, e) = (?v2, ?e)"
      with eq show ?thesis by simp
    next
      assume in_d: "(k2, e) \<in> set d"
      with d have "(?v1, d) \<in> set (adjacency_list g)" by auto
      with in_d eq show ?thesis by auto
    qed
  next
    assume "(k, dd) \<in> set (adjacency_list g1)"
    with al1 have "(k, dd) = (?v1, []) \<or> (k, dd) \<in> set (adjacency_list g)" by auto
    with 2 show ?thesis by auto
  qed
qed

lemma add_edge_all_directed:
  assumes ne: "n1 \<noteq> n2" and ad: "add_edge g n1 n2 w = Inr g'" and inv: "all_directed g"
  shows "all_directed g'"
  unfolding all_directed_iff
proof (intro allI impI)
  fix k dd k2 e
  assume "(k, dd) \<in> set (adjacency_list g')" and "(k2, e) \<in> set dd"
  from add_edge_entries [OF ne ad this] inv
  show "e = DirectedEdge k k2 (weight e)"
    unfolding all_directed_iff by auto
qed

lemma add_edge_Inr_distinct: "add_edge g n1 n2 w = Inr g' \<Longrightarrow> n1 \<noteq> n2"
  by (auto simp: add_edge_def edge_factory_def)

lemma add_edges_all_directed:
  "add_edges g es = Inr g' \<Longrightarrow> all_directed g \<Longrightarrow> all_directed g' \<and> directed g' = directed g"
proof (induction es arbitrary: g)
  case Nil
  then show ?case by simp
next
  case (Cons x es)
  obtain n1 n2 w where x: "x = (n1, n2, w)" by (cases x)
  with Cons.prems obtain g1 where g1: "add_edge g n1 n2 w = Inr g1"
    and rest: "add_edges g1 es = Inr g'"
    by (auto split: sum.splits)
  from g1 have ne: "n1 \<noteq> n2" by (rule add_edge_Inr_distinct)
  from add_edge_all_directed [OF ne g1 Cons.prems(2)] add_edge_stored(2) [OF ne g1]
    Cons.IH [OF rest]
  show ?case by simp
qed





lemma for_items_collect:
  "for_items (\<lambda>x acc g'. Some (Inr (acc @ [x]), g')) xs acc g = Some (Inr (acc @ xs), g)"
  by (induction xs arbitrary: acc) auto

lemma for_reverse_collect:
  assumes "set ks \<subseteq> fst ` set (adjacency_list g)"
  shows "for_reverse (\<lambda>x acc g'. Some (Inr (acc @ [x]), g')) t (length (adjacency_list g)) ks acc g =
     Some (Inr (acc @ List.map_filter (\<lambda>v1. map_option (Pair v1) (stored_edge g v1 t)) ks), g)"
  using assms
proof (induction ks arbitrary: acc)
  case Nil
  then show ?case by simp
next
  case (Cons k ks)
  then obtain d where d: "map_of (adjacency_list g) k = Some d"
    by (cases "map_of (adjacency_list g) k") (auto simp: map_of_eq_None_iff)
  from Cons have IH: "for_reverse (\<lambda>x acc g'. Some (Inr (acc @ [x]), g')) t
       (length (adjacency_list g)) ks acc' g =
     Some (Inr (acc' @ List.map_filter (\<lambda>v1. map_option (Pair v1) (stored_edge g v1 t)) ks), g)"
    for acc'
    by simp
  from d have se: "stored_edge g k t = map_of d t"
    by (simp add: stored_edge_def)
  show ?case
    using d
    by (cases "map_of d t") (simp_all add: adj_get_present se IH)
qed

lemma neighbors_closed_form:
  "neighbors g t =
     Some (Inr (fst (adj_get g t) @
       (if truthy (directed g) then []
        else List.map_filter (\<lambda>v1. map_option (Pair v1) (stored_edge (snd (adj_get g t)) v1 t))
               (map fst (adjacency_list (snd (adj_get g t)))))),
       snd (adj_get g t))"
proof -
  obtain d g1 where a: "adj_get g t = (d, g1)" by (cases "adj_get g t")
  then have "extends g g1" by (rule extends_adj_get)
  then have dir: "directed g1 = directed g" by (simp add: extends_def)
  show ?thesis
    using a dir
    by (simp add: neighbors_def for_neighbors_def for_items_collect for_reverse_collect)
qed


subsection \<open>Frame of the traversals\<close>









lemma visit_start: "visit_vertex_neighbors g v v [] = (Inr (True, [(v, [v])]), g)"
  by (simp add: visit_vertex_neighbors_def dd_get_def)



subsection \<open>The complete diamond\<close>


text \<open>
  C1. On the complete diamond, recursive \<open>dfs_traversal\<close>, non-recursive
  \<open>dfs_traversal\<close> and \<open>bfs_traversal\<close> from \<open>a\<close> all return (with fuel 4, 5 and 6), and
  the three visited maps are equal as dictionaries: each holds the four entries of
  \<open>diamond_visited\<close>. In it the path of \<open>d\<close> is \<open>(a, b, c, d)\<close>, whose weight is 1.5; the
  paths \<open>(a, d)\<close> and \<open>(a, c, d)\<close> weigh 2.0 and 2.5.
\<close>

theorem complete_diamond_traversals_agree:
  "(\<exists>v1 v2 v3.
      returned_visited (dfs_traversal 4 complete_diamond (Vertex ''a'') True) = Some v1 \<and>
      returned_visited (dfs_traversal 5 complete_diamond (Vertex ''a'') False) = Some v2 \<and>
      returned_visited (bfs_traversal 6 complete_diamond (Vertex ''a'')) = Some v3 \<and>
      dict_eq v1 v2 \<and> dict_eq v2 v3 \<and> dict_eq v3 v1 \<and> dict_eq v1 diamond_visited \<and>
      map_of v1 (Vertex ''d'') = Some [Vertex ''a'', Vertex ''b'', Vertex ''c'', Vertex ''d'']) \<and>
   fst (total_vertex_sequence_weight complete_diamond
          [Vertex ''a'', Vertex ''b'', Vertex ''c'', Vertex ''d'']) = Inr (3 / 2) \<and>
   fst (total_vertex_sequence_weight complete_diamond [Vertex ''a'', Vertex ''d'']) = Inr 2 \<and>
   fst (total_vertex_sequence_weight complete_diamond
          [Vertex ''a'', Vertex ''c'', Vertex ''d'']) = Inr (5 / 2)"
proof -
  have r: "returned_visited (dfs_traversal 4 complete_diamond (Vertex ''a'') True) =
      Some [(Vertex ''a'', [Vertex ''a'']),
            (Vertex ''b'', [Vertex ''a'', Vertex ''b'']),
            (Vertex ''d'', [Vertex ''a'', Vertex ''b'', Vertex ''c'', Vertex ''d'']),
            (Vertex ''c'', [Vertex ''a'', Vertex ''b'', Vertex ''c''])]"
    by code_simp
  have n: "returned_visited (dfs_traversal 5 complete_diamond (Vertex ''a'') False) =
      Some diamond_visited"
    by code_simp
  have b: "returned_visited (bfs_traversal 6 complete_diamond (Vertex ''a'')) =
      Some diamond_visited"
    by code_simp
  have w: "fst (total_vertex_sequence_weight complete_diamond
          [Vertex ''a'', Vertex ''b'', Vertex ''c'', Vertex ''d'']) = Inr (3 / 2)"
    "fst (total_vertex_sequence_weight complete_diamond [Vertex ''a'', Vertex ''d'']) = Inr 2"
    "fst (total_vertex_sequence_weight complete_diamond
          [Vertex ''a'', Vertex ''c'', Vertex ''d'']) = Inr (5 / 2)"
    by code_simp+
  show ?thesis
    unfolding r n b
    by (simp add: w) (simp add: dict_eq_def diamond_visited_def)
qed

subsection \<open>More fuel gives the same result\<close>





subsection \<open>Side-effect-free weights and the memo table\<close>

lemma stored_weights_cong:
  "(\<And>v1 v2. stored_edge g' v1 v2 = stored_edge g v1 v2) \<Longrightarrow>
   stored_weights g' ps = stored_weights g ps"
  by (induction ps) (auto split: option.splits)



lemma walk_weight_cache [simp]: "walk_weight (g\<lparr>cache := c\<rparr>) p = walk_weight g p"
  by (simp add: walk_weight_def stored_weights_cong [of "g\<lparr>cache := c\<rparr>" g] stored_edge_def)




subsection \<open>The visit rule on recorded paths\<close>





subsection \<open>Appending a vertex to a walk; the negative cycle\<close>



lemma walk_weight_single [simp]: "walk_weight g [v] = Some 0"
  by (simp add: walk_weight_def)




subsection \<open>A common denominator of the stored weights\<close>









subsection \<open>One visit\<close>


lemma improves_refl [simp]: "improves g vis vis"
  by (simp add: improves_def)




subsection \<open>The items of an adjacency entry\<close>



subsection \<open>The measures\<close>







subsection \<open>Recursive depth-first search returns\<close>





subsection \<open>The work-list loops return\<close>







subsection \<open>Weights, factory and dispatch\<close>

text \<open>
  C6 (as amended). For a non-empty vertex sequence that is not memoised:
  if every consecutive pair has a stored edge, \<open>total_vertex_sequence_weight\<close> returns the
  sum of the stored weights of the consecutive pairs, added from left to right starting
  from 0, and memoises it; if some consecutive pair has no stored edge, it raises
  \<open>KeyError\<close>. A memoised sequence returns the memoised weight (which is the weight at
  the time of the first call, also after \<open>add_edge\<close> has overwritten an edge of it).
\<close>

theorem total_vertex_sequence_weight_sum:
  fixes g :: "'w::{zero,plus} Graph"
  shows "(map_of (cache g) (v # vs) = None \<longrightarrow>
      (\<forall>ws. stored_weights g (consecutive_pairs (v # vs)) = Some ws \<longrightarrow>
         total_vertex_sequence_weight g (v # vs) =
           (Inr (foldl (+) 0 ws), g\<lparr>cache := cache g @ [(v # vs, foldl (+) 0 ws)]\<rparr>)) \<and>
      (stored_weights g (consecutive_pairs (v # vs)) = None \<longrightarrow>
         (\<exists>u g'. total_vertex_sequence_weight g (v # vs) = (Inl (KeyError u), g')))) \<and>
    (\<forall>w. map_of (cache g) (v # vs) = Some w \<longrightarrow>
       total_vertex_sequence_weight g (v # vs) = (Inr w, g))"
proof (intro conjI impI allI)
  fix ws
  assume "map_of (cache g) (v # vs) = None"
    and "stored_weights g (consecutive_pairs (v # vs)) = Some ws"
  then show "total_vertex_sequence_weight g (v # vs) =
           (Inr (foldl (+) 0 ws), g\<lparr>cache := cache g @ [(v # vs, foldl (+) 0 ws)]\<rparr>)"
    by (simp add: total_vertex_sequence_weight_def weight_loop_stored)
next
  assume c: "map_of (cache g) (v # vs) = None"
    and "stored_weights g (consecutive_pairs (v # vs)) = None"
  from weight_loop_missing [OF this(2), of 0] c
  show "\<exists>u g'. total_vertex_sequence_weight g (v # vs) = (Inl (KeyError u), g')"
    by (auto simp: total_vertex_sequence_weight_def)
next
  fix w
  assume "map_of (cache g) (v # vs) = Some w"
  then show "total_vertex_sequence_weight g (v # vs) = (Inr w, g)"
    by (simp add: total_vertex_sequence_weight_def)
qed

lemma complete_diamond_weights:
  "stored_weights complete_diamond (consecutive_pairs [Vertex ''a'', Vertex ''b'', Vertex ''c'', Vertex ''d''])
     = Some [1/2, 1/2, 1/2]"
  "stored_weights complete_diamond (consecutive_pairs [Vertex ''a'', Vertex ''c'', Vertex ''b''])
     = None"
  by code_simp+

theorem total_vertex_sequence_weight_sum_witness:
  "fst (total_vertex_sequence_weight complete_diamond
          [Vertex ''a'', Vertex ''b'', Vertex ''c'', Vertex ''d'']) = Inr (3 / 2) \<and>
   (\<exists>u. fst (total_vertex_sequence_weight complete_diamond
          [Vertex ''a'', Vertex ''c'', Vertex ''b'']) = Inl (KeyError u)) \<and>
   (\<exists>g1 g2. total_vertex_sequence_weight complete_diamond [Vertex ''a'', Vertex ''d''] = (Inr 2, g1) \<and>
      add_edge g1 ''a'' ''d'' 7 = Inr g2 \<and>
      stored_weights g2 (consecutive_pairs [Vertex ''a'', Vertex ''d'']) = Some [7] \<and>
      total_vertex_sequence_weight g2 [Vertex ''a'', Vertex ''d''] = (Inr 2, g2))"
proof -
  have c: "map_of (cache complete_diamond) p = None" for p
    by (simp add: complete_diamond_def)
  have 1: "fst (total_vertex_sequence_weight complete_diamond
          [Vertex ''a'', Vertex ''b'', Vertex ''c'', Vertex ''d'']) = Inr (3 / 2)"
    using total_vertex_sequence_weight_sum
      [of complete_diamond "Vertex ''a''" "[Vertex ''b'', Vertex ''c'', Vertex ''d'']"]
      c complete_diamond_weights(1)
    by simp
  have 2: "\<exists>u. fst (total_vertex_sequence_weight complete_diamond
          [Vertex ''a'', Vertex ''c'', Vertex ''b'']) = Inl (KeyError u)"
    using total_vertex_sequence_weight_sum
      [of complete_diamond "Vertex ''a''" "[Vertex ''c'', Vertex ''b'']"]
      c complete_diamond_weights(2)
    by auto
  define g1 where "g1 = complete_diamond\<lparr>cache := [([Vertex ''a'', Vertex ''d''], 2)]\<rparr>"
  obtain g2 where g2: "add_edge g1 ''a'' ''d'' 7 = Inr g2"
    by (cases "adj_get g1 (Vertex ''a'')") (simp add: add_edge_def edge_factory_def)
  have t: "total_vertex_sequence_weight complete_diamond [Vertex ''a'', Vertex ''d''] = (Inr 2, g1)"
    unfolding g1_def by code_simp
  have cache2: "map_of (cache g2) [Vertex ''a'', Vertex ''d''] = Some 2"
    using g2
    by (auto simp: g1_def add_edge_def edge_factory_def adj_get_def dd_get_def complete_diamond_def)
  have st: "stored_weights g2 (consecutive_pairs [Vertex ''a'', Vertex ''d'']) = Some [7]"
    using g2
    by (auto simp: g1_def add_edge_def edge_factory_def adj_get_def dd_get_def complete_diamond_def
        stored_edge_def)
  have 3: "total_vertex_sequence_weight g2 [Vertex ''a'', Vertex ''d''] = (Inr 2, g2)"
    using total_vertex_sequence_weight_sum [of g2 "Vertex ''a''" "[Vertex ''d'']"] cache2
    by simp
  show ?thesis using 1 2 t g2 st 3 by blast
qed

text \<open>
  C6, counterexample. Every consecutive pair of the empty sequence has a stored edge
  (there is none), and the call raises \<open>IndexError\<close> instead of returning the empty sum.
\<close>

theorem total_vertex_sequence_weight_empty_counterexample:
  "stored_weights complete_diamond (consecutive_pairs []) = Some [] \<and>
   total_vertex_sequence_weight complete_diamond [] = (Inl IndexError, complete_diamond)"
  by (simp add: total_vertex_sequence_weight_def complete_diamond_def)

text \<open>
  C7. For equal vertex names, any weight and any value of the \<open>directed\<close> flag,
  \<open>edge_factory\<close> raises \<open>NotImplementedError\<close>, and so does \<open>add_edge\<close> on any graph
  (nothing is stored: no graph is returned). For distinct names both succeed.
\<close>

theorem edge_factory_self_loop:
  "edge_factory n n w dir =
     Inl (NotImplementedError ''Edge such that vertex1 == vertex2 are not relevant'') \<and>
   add_edge g n n w =
     Inl (NotImplementedError ''Edge such that vertex1 == vertex2 are not relevant'') \<and>
   (n1 \<noteq> n2 \<longrightarrow> (\<exists>e. edge_factory n1 n2 w dir = Inr e) \<and> (\<exists>g'. add_edge g n1 n2 w = Inr g'))"
  by (simp add: edge_factory_def add_edge_def split: prod.splits)

theorem edge_factory_self_loop_witness:
  "edge_factory ''a'' ''a'' (1 / 2 :: rat) None =
     Inl (NotImplementedError ''Edge such that vertex1 == vertex2 are not relevant'') \<and>
   add_edge complete_diamond ''a'' ''a'' (1 / 2) =
     Inl (NotImplementedError ''Edge such that vertex1 == vertex2 are not relevant'') \<and>
   (\<exists>e. edge_factory ''a'' ''b'' (1 / 2 :: rat) None = Inr e) \<and>
   (\<exists>g'. add_edge complete_diamond ''a'' ''b'' (1 / 2) = Inr g')"
  using edge_factory_self_loop [of "''a''" "1 / 2" None complete_diamond "''a''" "''b''"]
  by simp

text \<open>
  C8. For a \<open>search\<close> string other than the three strategy names, \<open>shortest_path\<close>
  returns a \<open>NotImplementedError\<close> object and leaves the graph as it was, with any
  fuel: no traversal runs. For each of the three names it is the corresponding traversal
  from the source vertex, followed by the visited-map entry of the target vertex (the
  empty sequence when the target has no entry).
\<close>

theorem shortest_path_dispatch:
  "(search \<noteq> ''dfs-nonrecursive'' \<and> search \<noteq> ''dfs-recursive'' \<and> search \<noteq> ''bfs'' \<longrightarrow>
      shortest_path n g a b search =
        Some (Inr (ReturnedError (NotImplementedError ''Unsupported search'')), g)) \<and>
   shortest_path n g a b ''dfs-recursive'' =
     map_option (\<lambda>(r, g'). (map_sum id
        (\<lambda>vis. ReturnedPath (case map_of vis (Vertex b) of None \<Rightarrow> [] | Some p \<Rightarrow> p)) r, g'))
       (dfs_traversal n g (Vertex a) True) \<and>
   shortest_path n g a b ''dfs-nonrecursive'' =
     map_option (\<lambda>(r, g'). (map_sum id
        (\<lambda>vis. ReturnedPath (case map_of vis (Vertex b) of None \<Rightarrow> [] | Some p \<Rightarrow> p)) r, g'))
       (dfs_traversal n g (Vertex a) False) \<and>
   shortest_path n g a b ''bfs'' =
     map_option (\<lambda>(r, g'). (map_sum id
        (\<lambda>vis. ReturnedPath (case map_of vis (Vertex b) of None \<Rightarrow> [] | Some p \<Rightarrow> p)) r, g'))
       (bfs_traversal n g (Vertex a))"
  by (auto simp: shortest_path_def dd_get_def split: option.splits sum.splits prod.splits)

theorem shortest_path_dispatch_witness:
  "shortest_path 0 complete_diamond ''a'' ''d'' ''dijkstra'' =
     Some (Inr (ReturnedError (NotImplementedError ''Unsupported search'')), complete_diamond) \<and>
   map_option fst (shortest_path 5 complete_diamond ''a'' ''d'' ''dfs-nonrecursive'') =
     Some (Inr (ReturnedPath [Vertex ''a'', Vertex ''b'', Vertex ''c'', Vertex ''d''])) \<and>
   map_option fst (shortest_path 5 complete_diamond ''d'' ''a'' ''bfs'') =
     Some (Inr (ReturnedPath []))"
proof -
  have 1: "map_option fst (dfs_traversal 5 complete_diamond (Vertex ''a'') False) = Some (Inr diamond_visited)"
    by code_simp
  have 2: "map_option fst (bfs_traversal 5 complete_diamond (Vertex ''d'')) = Some (Inr [(Vertex ''d'', [Vertex ''d''])])"
    by code_simp
  have 3: "map_of diamond_visited (Vertex ''d'') = Some [Vertex ''a'', Vertex ''b'', Vertex ''c'', Vertex ''d'']"
    by (simp add: diamond_visited_def)
  show ?thesis
    using shortest_path_dispatch [of "''dijkstra''" 0 complete_diamond "''a''" "''d''"]
      shortest_path_dispatch [of "''dijkstra''" 5 complete_diamond "''a''" "''d''"]
      shortest_path_dispatch [of "''dijkstra''" 5 complete_diamond "''d''" "''a''"]
      1 2 3
    by (auto simp: option.map_comp comp_def split: prod.splits)
qed

text \<open>
  C3, at the failing input. On the complete diamond the sequences \<open>(a, d)\<close> and
  \<open>(a, c)\<close> both weigh 2.0, and \<open>min_vertex_sequence_weight\<close> returns the second
  argument \<open>(a, c)\<close>: the test is \<open>sequence1_weight < sequence2_weight\<close>, so a tie falls
  to the \<open>else\<close> branch.
\<close>

theorem min_vertex_sequence_weight_tie:
  "fst (total_vertex_sequence_weight complete_diamond [Vertex ''a'', Vertex ''d'']) = Inr 2 \<and>
   fst (total_vertex_sequence_weight complete_diamond [Vertex ''a'', Vertex ''c'']) = Inr 2 \<and>
   fst (min_vertex_sequence_weight complete_diamond
          [Vertex ''a'', Vertex ''d''] [Vertex ''a'', Vertex ''c'']) =
     Inr [Vertex ''a'', Vertex ''c'']"
  by code_simp

text \<open>
  C2, at the failing input. On the complete diamond, with \<open>(a, b, d)\<close> recorded for
  \<open>d\<close> and \<open>(a, c)\<close> for \<open>c\<close>, visiting \<open>d\<close> from \<open>c\<close> compares two paths of weight
  2.5: the recorded path is replaced by the candidate \<open>(a, c, d)\<close> and the result is
  true, with no strict improvement.
\<close>

theorem visit_vertex_neighbors_tie:
  "fst (total_vertex_sequence_weight complete_diamond
          [Vertex ''a'', Vertex ''b'', Vertex ''d'']) = Inr (5 / 2) \<and>
   fst (total_vertex_sequence_weight complete_diamond
          [Vertex ''a'', Vertex ''c'', Vertex ''d'']) = Inr (5 / 2) \<and>
   fst (visit_vertex_neighbors complete_diamond (Vertex ''d'') (Vertex ''c'')
          [(Vertex ''a'', [Vertex ''a'']),
           (Vertex ''b'', [Vertex ''a'', Vertex ''b'']),
           (Vertex ''c'', [Vertex ''a'', Vertex ''c'']),
           (Vertex ''d'', [Vertex ''a'', Vertex ''b'', Vertex ''d''])]) =
     Inr (True,
          [(Vertex ''a'', [Vertex ''a'']),
           (Vertex ''b'', [Vertex ''a'', Vertex ''b'']),
           (Vertex ''c'', [Vertex ''a'', Vertex ''c'']),
           (Vertex ''d'', [Vertex ''a'', Vertex ''c'', Vertex ''d''])])"
  by code_simp


subsection \<open>Stored edges and the frame of the queries\<close>

text \<open>
  C10. Whatever the \<open>directed\<close> flag of the graph: \<open>add_edge\<close> with distinct names
  stores \<open>DirectedEdge (n1, n2, w)\<close> under \<open>Vertex n1\<close>, keyed by \<open>Vertex n2\<close>, with the
  endpoints in the order of the arguments, and keeps the flag; if all stored edges were
  directed edges in stored orientation, they still are. So a graph built from
  \<open>Graph.__init__\<close> by \<open>add_edge\<close> calls holds only such edges. \<open>neighbors\<close> yields the
  entries stored under the target and, only when the flag is falsy, after them the edges
  the scan of all adjacency entries finds stored towards the target.
\<close>

theorem add_edge_always_directed:
  fixes g :: "'w Graph"
  shows
  "(n1 \<noteq> n2 \<longrightarrow>
      (\<exists>g'. add_edge g n1 n2 w = Inr g' \<and> directed g' = directed g \<and>
         stored_edge g' (Vertex n1) (Vertex n2) = Some (DirectedEdge (Vertex n1) (Vertex n2) w) \<and>
         (all_directed g \<longrightarrow> all_directed g'))) \<and>
   (\<forall>g' :: 'w Graph.
      add_edges (Graph_init nm dir) es = Inr g' \<longrightarrow> all_directed g' \<and> directed g' = dir) \<and>
   neighbors g t =
     Some (Inr (fst (adj_get g t) @
       (if truthy (directed g) then []
        else List.map_filter (\<lambda>v1. map_option (Pair v1) (stored_edge (snd (adj_get g t)) v1 t))
               (map fst (adjacency_list (snd (adj_get g t)))))),
       snd (adj_get g t))"
proof (intro conjI impI allI)
  assume ne: "n1 \<noteq> n2"
  then obtain g' where g': "add_edge g n1 n2 w = Inr g'"
    by (simp add: add_edge_result)
  from add_edge_stored [OF ne g'] add_edge_all_directed [OF ne g'] g'
  show "\<exists>g'. add_edge g n1 n2 w = Inr g' \<and> directed g' = directed g \<and>
         stored_edge g' (Vertex n1) (Vertex n2) = Some (DirectedEdge (Vertex n1) (Vertex n2) w) \<and>
         (all_directed g \<longrightarrow> all_directed g')"
    by blast
next
  fix g' :: "'w Graph"
  assume b: "add_edges (Graph_init nm dir) es = Inr g'"
  have i: "all_directed (Graph_init nm dir :: 'w Graph)"
    by (simp add: all_directed_def Graph_init_def)
  from add_edges_all_directed [OF b i]
  show "all_directed g'" and "directed g' = dir"
    by (simp_all add: Graph_init_def)
next
  show "neighbors g t =
     Some (Inr (fst (adj_get g t) @
       (if truthy (directed g) then []
        else List.map_filter (\<lambda>v1. map_option (Pair v1) (stored_edge (snd (adj_get g t)) v1 t))
               (map fst (adjacency_list (snd (adj_get g t)))))),
       snd (adj_get g t))"
    by (rule neighbors_closed_form)
qed

theorem add_edge_always_directed_witness:
  "(\<exists>g'. add_edge (Graph_init ''u'' (Some False)) ''b'' ''a'' (1 / 2 :: rat) = Inr g' \<and>
      directed g' = Some False \<and>
      stored_edge g' (Vertex ''b'') (Vertex ''a'') =
        Some (DirectedEdge (Vertex ''b'') (Vertex ''a'') (1 / 2)) \<and>
      all_directed g' \<and>
      map_option fst (neighbors g' (Vertex ''a'')) =
        Some (Inr [(Vertex ''b'', DirectedEdge (Vertex ''b'') (Vertex ''a'') (1 / 2))]) \<and>
      map_option fst (neighbors (g'\<lparr>directed := Some True\<rparr>) (Vertex ''a'')) = Some (Inr [])) \<and>
   edge_factory ''b'' ''a'' (1 / 2 :: rat) (Some False) =
     Inr (UndirectedEdge (Vertex ''a'') (Vertex ''b'') (1 / 2))"
proof -
  let ?g0 = "Graph_init ''u'' (Some False) :: rat Graph"
  have i: "all_directed ?g0"
    by (simp add: all_directed_def Graph_init_def)
  from add_edge_always_directed [of "''b''" "''a''" ?g0 "1 / 2" "''u''" "Some False" "[]" "Vertex ''a''"] i
  obtain g' where g': "add_edge ?g0 ''b'' ''a'' (1 / 2) = Inr g'" "directed g' = Some False"
    "stored_edge g' (Vertex ''b'') (Vertex ''a'') =
        Some (DirectedEdge (Vertex ''b'') (Vertex ''a'') (1 / 2))" "all_directed g'"
    by (auto simp: Graph_init_def)
  from g'(1) have al: "g' = \<lparr>graph_name = ''u'', directed = Some False,
      adjacency_list = [(Vertex ''b'', [(Vertex ''a'', DirectedEdge (Vertex ''b'') (Vertex ''a'') (1 / 2))])],
      cache = []\<rparr>"
    by (simp add: add_edge_result Graph_init_def adj_get_def dd_get_def)
  have n1: "map_option fst (neighbors g' (Vertex ''a'')) =
        Some (Inr [(Vertex ''b'', DirectedEdge (Vertex ''b'') (Vertex ''a'') (1 / 2))])"
    using add_edge_always_directed [of "''b''" "''a''" g' "1 / 2" "''u''" "Some False" "[]" "Vertex ''a''",
        THEN conjunct2, THEN conjunct2]
    by (simp add: al adj_get_def dd_get_def stored_edge_def)
  have n2: "map_option fst (neighbors (g'\<lparr>directed := Some True\<rparr>) (Vertex ''a'')) = Some (Inr [])"
    using add_edge_always_directed [of "''b''" "''a''" "g'\<lparr>directed := Some True\<rparr>" "1 / 2" "''u''" "Some False" "[]" "Vertex ''a''",
        THEN conjunct2, THEN conjunct2]
    by (simp add: al adj_get_def dd_get_def stored_edge_def)
  have f: "edge_factory ''b'' ''a'' (1 / 2 :: rat) (Some False) =
     Inr (UndirectedEdge (Vertex ''a'') (Vertex ''b'') (1 / 2))"
    by (simp add: edge_factory_def UndirectedEdge_init_def)
  from g' n1 n2 f show ?thesis by blast
qed






subsection \<open>The undirected triangle\<close>

lemma looping_visit_b_from_a: "visit_vertex_neighbors triangle_looping (Vertex ''b'') (Vertex ''a'') triangle_visited
   = (Inr (True, triangle_visited), triangle_looping)"
  by code_simp

lemma looping_visit_c_from_b: "visit_vertex_neighbors triangle_looping (Vertex ''c'') (Vertex ''b'') triangle_visited
   = (Inr (False, triangle_visited), triangle_looping)"
  by code_simp

lemma looping_adj_a: "adj_get triangle_looping (Vertex ''a'') = ([(Vertex ''b'', DirectedEdge (Vertex ''a'') (Vertex ''b'') (1 / 2)),
           (Vertex ''c'', DirectedEdge (Vertex ''a'') (Vertex ''c'') (1 / 2))], triangle_looping)"
  by (rule adj_get_present) (simp add: triangle_looping_def)

lemma looping_adj_b: "adj_get triangle_looping (Vertex ''b'') = ([(Vertex ''c'', DirectedEdge (Vertex ''b'') (Vertex ''c'') (1 / 2))], triangle_looping)"
  by (rule adj_get_present) (simp add: triangle_looping_def)

lemma looping_fields:
  "directed triangle_looping = Some False"
  "map fst (adjacency_list triangle_looping) = [Vertex ''a'', Vertex ''b'', Vertex ''c'']"
  "length (adjacency_list triangle_looping) = 3"
  by (simp_all add: triangle_looping_def)

lemma dfs_a_step: "dfs n (Vertex ''b'') triangle_visited triangle_looping = None \<Longrightarrow>
   dfs (Suc n) (Vertex ''a'') triangle_visited triangle_looping = None"
  by (simp add: for_neighbors_def looping_adj_a looping_visit_b_from_a)

lemma dfs_b_step: "dfs n (Vertex ''a'') triangle_visited triangle_looping = None \<Longrightarrow>
   dfs (Suc n) (Vertex ''b'') triangle_visited triangle_looping = None"
  by (simp add: for_neighbors_def looping_adj_a looping_adj_b looping_visit_b_from_a looping_visit_c_from_b looping_fields)

lemma dfs_cycle:
  "dfs n (Vertex ''a'') triangle_visited triangle_looping = None \<and>
   dfs n (Vertex ''b'') triangle_visited triangle_looping = None"
  by (induction n) (simp_all add: dfs_a_step dfs_b_step del: dfs.simps(2))


lemma triangle_built:
  "add_edges (Graph_init ''triangle'' (Some True))
     [(''a'', ''b'', 1 / 2), (''a'', ''c'', 1 / 2), (''b'', ''c'', 1 / 2)] = Inr triangle"
  "add_edges (Graph_init ''triangle'' (Some False))
     [(''a'', ''b'', 1 / 2), (''a'', ''c'', 1 / 2), (''b'', ''c'', 1 / 2)] = Inr triangle_undirected"
  by code_simp+

lemma undirected_recursive_prefix:
  "visit_vertex_neighbors triangle_undirected (Vertex ''b'') (Vertex ''a'')
     [(Vertex ''a'', [Vertex ''a''])] =
     (Inr (True, [(Vertex ''a'', [Vertex ''a'']), (Vertex ''b'', [Vertex ''a'', Vertex ''b''])]),
      triangle_undirected)"
  "visit_vertex_neighbors triangle_undirected (Vertex ''c'') (Vertex ''b'')
     [(Vertex ''a'', [Vertex ''a'']), (Vertex ''b'', [Vertex ''a'', Vertex ''b''])] =
     (Inr (True, [(Vertex ''a'', [Vertex ''a'']), (Vertex ''b'', [Vertex ''a'', Vertex ''b'']),
                  (Vertex ''c'', [Vertex ''a'', Vertex ''b'', Vertex ''c''])]),
      triangle_undirected)"
  "visit_vertex_neighbors (triangle_looping\<lparr>cache := []\<rparr>) (Vertex ''c'') (Vertex ''a'')
     [(Vertex ''a'', [Vertex ''a'']), (Vertex ''b'', [Vertex ''a'', Vertex ''b'']),
      (Vertex ''c'', [Vertex ''a'', Vertex ''b'', Vertex ''c''])] =
     (Inr (True, triangle_visited),
      triangle_looping\<lparr>cache := [([Vertex ''a'', Vertex ''b'', Vertex ''c''], 1),
                                 ([Vertex ''a'', Vertex ''c''], 1 / 2)]\<rparr>)"
  "visit_vertex_neighbors
     (triangle_looping\<lparr>cache := [([Vertex ''a'', Vertex ''b'', Vertex ''c''], 1),
                                 ([Vertex ''a'', Vertex ''c''], 1 / 2)]\<rparr>)
     (Vertex ''b'') (Vertex ''a'') triangle_visited =
     (Inr (True, triangle_visited), triangle_looping)"
  by code_simp+

lemma undirected_fields:
  "adj_get triangle_undirected (Vertex ''a'') =
     ([(Vertex ''b'', DirectedEdge (Vertex ''a'') (Vertex ''b'') (1 / 2)),
       (Vertex ''c'', DirectedEdge (Vertex ''a'') (Vertex ''c'') (1 / 2))], triangle_undirected)"
  "adj_get triangle_undirected (Vertex ''b'') =
     ([(Vertex ''c'', DirectedEdge (Vertex ''b'') (Vertex ''c'') (1 / 2))], triangle_undirected)"
  "adj_get triangle_undirected (Vertex ''c'') = ([], triangle_looping\<lparr>cache := []\<rparr>)"
  "adj_get (triangle_looping\<lparr>cache := c\<rparr>) (Vertex ''a'') =
     ([(Vertex ''b'', DirectedEdge (Vertex ''a'') (Vertex ''b'') (1 / 2)),
       (Vertex ''c'', DirectedEdge (Vertex ''a'') (Vertex ''c'') (1 / 2))],
      triangle_looping\<lparr>cache := c\<rparr>)"
  "directed (triangle_looping\<lparr>cache := c\<rparr>) = Some False"
  "map fst (adjacency_list (triangle_looping\<lparr>cache := c\<rparr>)) =
     [Vertex ''a'', Vertex ''b'', Vertex ''c'']"
  "length (adjacency_list (triangle_looping\<lparr>cache := c\<rparr>)) = 3"
  by (simp_all add: triangle_undirected_def triangle_looping_def adj_get_def dd_get_def)

lemma dfs_undirected_diverges:
  "dfs n (Vertex ''a'') [(Vertex ''a'', [Vertex ''a''])] triangle_undirected = None"
proof -
  have 4: "dfs n (Vertex ''a'') triangle_visited
             (triangle_looping\<lparr>cache := [([Vertex ''a'', Vertex ''b'', Vertex ''c''], 1),
                                         ([Vertex ''a'', Vertex ''c''], 1 / 2)]\<rparr>) = None" for n
    by (cases n)
      (simp_all add: for_neighbors_def undirected_fields looping_fields undirected_recursive_prefix dfs_cycle)
  have 3: "dfs n (Vertex ''c'')
             [(Vertex ''a'', [Vertex ''a'']), (Vertex ''b'', [Vertex ''a'', Vertex ''b'']),
              (Vertex ''c'', [Vertex ''a'', Vertex ''b'', Vertex ''c''])]
             triangle_undirected = None" for n
    by (cases n)
      (simp_all add: for_neighbors_def undirected_fields looping_fields undirected_recursive_prefix 4)
  have 2: "dfs n (Vertex ''b'')
             [(Vertex ''a'', [Vertex ''a'']), (Vertex ''b'', [Vertex ''a'', Vertex ''b''])]
             triangle_undirected = None" for n
    by (cases n)
      (simp_all add: for_neighbors_def undirected_fields looping_fields undirected_recursive_prefix 3)
  show ?thesis
    by (cases n)
      (simp_all add: for_neighbors_def undirected_fields looping_fields undirected_recursive_prefix 2)
qed


lemma undirected_pushes:
  "push_unvisited_neighbors triangle_undirected (Vertex ''a'') [] [(Vertex ''a'', [Vertex ''a''])] =
     Some (Inr ([DirectedEdge (Vertex ''a'') (Vertex ''b'') (1 / 2),
                 DirectedEdge (Vertex ''a'') (Vertex ''c'') (1 / 2)], triangle_visited),
           triangle_undirected)"
  "push_unvisited_neighbors triangle_undirected (Vertex ''c'')
     [DirectedEdge (Vertex ''a'') (Vertex ''b'') (1 / 2)] triangle_visited =
     Some (Inr ([DirectedEdge (Vertex ''a'') (Vertex ''b'') (1 / 2),
                 DirectedEdge (Vertex ''a'') (Vertex ''c'') (1 / 2)], triangle_visited),
           triangle_looping\<lparr>cache := [([Vertex ''a'', Vertex ''c''], 1 / 2),
                                      ([Vertex ''a'', Vertex ''b'', Vertex ''c''], 1)]\<rparr>)"
  "push_unvisited_neighbors
     (triangle_looping\<lparr>cache := [([Vertex ''a'', Vertex ''c''], 1 / 2),
                                 ([Vertex ''a'', Vertex ''b'', Vertex ''c''], 1)]\<rparr>)
     (Vertex ''c'') [DirectedEdge (Vertex ''a'') (Vertex ''b'') (1 / 2)] triangle_visited =
     Some (Inr ([DirectedEdge (Vertex ''a'') (Vertex ''b'') (1 / 2),
                 DirectedEdge (Vertex ''a'') (Vertex ''c'') (1 / 2)], triangle_visited),
           triangle_looping\<lparr>cache := [([Vertex ''a'', Vertex ''c''], 1 / 2),
                                      ([Vertex ''a'', Vertex ''b'', Vertex ''c''], 1)]\<rparr>)"
  by code_simp+

lemma dfs_while_undirected_cycle:
  "dfs_while n [DirectedEdge (Vertex ''a'') (Vertex ''b'') (1 / 2),
                DirectedEdge (Vertex ''a'') (Vertex ''c'') (1 / 2)] triangle_visited
     (triangle_looping\<lparr>cache := [([Vertex ''a'', Vertex ''c''], 1 / 2),
                                 ([Vertex ''a'', Vertex ''b'', Vertex ''c''], 1)]\<rparr>) = None"
  by (induction n) (simp_all add: undirected_pushes)

lemma dfs_non_recursive_undirected_diverges:
  "dfs_non_recursive n (Vertex ''a'') [(Vertex ''a'', [Vertex ''a''])] triangle_undirected = None"
  by (cases n) (simp_all add: dfs_non_recursive_def undirected_pushes dfs_while_undirected_cycle)

text \<open>
  C5, at the failing input. On the triangle with a falsy \<open>directed\<close> flag,
  \<open>dfs_traversal\<close> from \<open>a\<close> exhausts every amount of fuel, recursive or not: the
  reverse scan yields the edge \<open>a\<rightarrow>c\<close> (or \<open>a\<rightarrow>b\<close>) while the neighbours of its
  target are enumerated, the consumer visits \<open>edge.vertex2\<close> from \<open>edge.vertex1\<close>, which
  is the vertex being explored again with the path it already has, and
  \<open>visited[v] == new_path\<close> holds. On the graph the test module builds (default
  \<open>directed=True\<close>) both variants return the paths \<open>(a, b)\<close> and \<open>(a, c)\<close>.
\<close>

theorem triangle_undirected_dfs_diverges:
  "add_edges (Graph_init ''triangle'' (Some False))
     [(''a'', ''b'', 1 / 2), (''a'', ''c'', 1 / 2), (''b'', ''c'', 1 / 2)] =
     Inr triangle_undirected \<and>
   (\<forall>n recursive. dfs_traversal n triangle_undirected (Vertex ''a'') recursive = None) \<and>
   add_edges (Graph_init ''triangle'' (Some True))
     [(''a'', ''b'', 1 / 2), (''a'', ''c'', 1 / 2), (''b'', ''c'', 1 / 2)] = Inr triangle \<and>
   returned_visited (dfs_traversal 2 triangle (Vertex ''a'') False) = Some triangle_visited \<and>
   returned_visited (dfs_traversal 3 triangle (Vertex ''a'') True) = Some triangle_visited"
proof -
  have "dfs_traversal n triangle_undirected (Vertex ''a'') recursive = None" for n recursive
    by (simp add: dfs_traversal_def visit_start dfs_undirected_diverges
        dfs_non_recursive_undirected_diverges)
  moreover have "returned_visited (dfs_traversal 2 triangle (Vertex ''a'') False) = Some triangle_visited"
    by code_simp
  moreover have "returned_visited (dfs_traversal 3 triangle (Vertex ''a'') True) = Some triangle_visited"
    by code_simp
  ultimately show ?thesis
    using triangle_built by simp
qed


subsection \<open>Termination\<close>




end
